theory Spec2Isabelle
  imports Main
begin

section \<open>Python values used by both modules\<close>

text \<open>
  Python strings are modelled as \<^typ>\<open>string\<close>: a character is a code point below 256.
  Exceptions are values: every function that can raise returns a sum whose left
  injection is the exception, and a function that mutates an argument returns the
  argument's new state beside it, also when it raises.
\<close>

datatype py_error =
    IndexError
  | LookupError string
  | ExternalError string

text \<open>\<^verbatim>\<open>str.isdigit\<close> on one character: the decimal digits and, in the range below
  256, the superscripts two, three and one.\<close>

definition isdigit :: "char \<Rightarrow> bool" where
  "isdigit c =
     (let n = (of_char c :: nat)
      in (48 \<le> n \<and> n \<le> 57) \<or> n = 178 \<or> n = 179 \<or> n = 185)"

text \<open>\<^verbatim>\<open>str.isspace\<close> on one character: tab to carriage return, the four separators
  28 to 31, the space, NEL and the no-break space.\<close>

definition isspace :: "char \<Rightarrow> bool" where
  "isspace c =
     (let n = (of_char c :: nat)
      in (9 \<le> n \<and> n \<le> 13) \<or> (28 \<le> n \<and> n \<le> 32) \<or> n = 133 \<or> n = 160)"

text \<open>\<^verbatim>\<open>str(n)\<close> for a non-negative integer, as an f-string renders it.\<close>

definition digit_char :: "nat \<Rightarrow> char" where
  "digit_char d = ''0123456789'' ! d"

fun str_nat :: "nat \<Rightarrow> string" where
  "str_nat n = (if n < 10 then [digit_char n] else str_nat (n div 10) @ [digit_char (n mod 10)])"

declare str_nat.simps [simp del]

section \<open>The graph data model (\<^verbatim>\<open>onnx\<close> protocol buffers)\<close>

datatype dimension = Dim_value int | Dim_param string

datatype type_proto = Tensor_type int "dimension list" | Type_not_set

record value_info_proto =
  vi_name :: string
  vi_type :: type_proto
  vi_doc_string :: string

record tensor_proto =
  t_name :: string
  data_type :: int
  dims :: "int list"
  raw_data :: "nat list"

record node_proto =
  op_type :: string
  n_input :: "string list"
  n_output :: "string list"
  n_name :: string
  domain :: string

record graph_proto =
  g_node :: "node_proto list"
  g_initializer :: "tensor_proto list"
  g_input :: "value_info_proto list"
  g_output :: "value_info_proto list"

record model_proto =
  graph :: graph_proto
  opset_import :: "(string \<times> int) list"

text \<open>\<^verbatim>\<open>onnx.TensorProto.BOOL\<close>.\<close>

definition TensorProto_BOOL :: int where
  "TensorProto_BOOL = 9"

text \<open>\<^verbatim>\<open>onnx.helper.make_tensor_value_info(name, elem_type, shape)\<close> with a shape of
  integers: a tensor type of that element type whose dimensions are those values.\<close>

definition make_tensor_value_info :: "string \<Rightarrow> int \<Rightarrow> int list \<Rightarrow> value_info_proto" where
  "make_tensor_value_info nm elem_type shape =
     \<lparr>vi_name = nm, vi_type = Tensor_type elem_type (map Dim_value shape), vi_doc_string = []\<rparr>"

text \<open>\<^verbatim>\<open>onnx.helper.make_node(op_type, inputs, outputs, name=..., domain=...)\<close>.\<close>

definition make_node ::
  "string \<Rightarrow> string list \<Rightarrow> string list \<Rightarrow> string \<Rightarrow> string \<Rightarrow> node_proto" where
  "make_node ot ins outs nm dmn =
     \<lparr>op_type = ot, n_input = ins, n_output = outs, n_name = nm, domain = dmn\<rparr>"

section \<open>\<^verbatim>\<open>_graph_utils.py\<close>\<close>

subsection \<open>\<^verbatim>\<open>get_output_from_output_name\<close>\<close>

text \<open>The loop over the graph outputs, returning at the first output of that name.\<close>

fun output_loop :: "value_info_proto list \<Rightarrow> string \<Rightarrow> value_info_proto option" where
  "output_loop [] output_name = None"
| "output_loop (out # outs) output_name =
     (if vi_name out = output_name then Some out else output_loop outs output_name)"

definition get_output_from_output_name ::
  "model_proto \<Rightarrow> string \<Rightarrow> model_proto \<times> (py_error + value_info_proto)" where
  "get_output_from_output_name onnx_model output_name =
     (case output_loop (g_output (graph onnx_model)) output_name of
        Some out \<Rightarrow> (onnx_model, Inr out)
      | None \<Rightarrow>
          (onnx_model,
           Inl (LookupError
             (''The provided output name '' @ output_name @ '' is not a graph output.''))))"

subsection \<open>\<^verbatim>\<open>get_random_number\<close> and \<^verbatim>\<open>generate_random_graph_name\<close>\<close>

text \<open>\<^verbatim>\<open>random.randint(0, 1000)\<close> may return any integer of that closed range: the
  function is modelled by the set of its possible results.\<close>

definition get_random_number :: "nat set" where
  "get_random_number = {0..1000}"

definition generate_random_graph_name :: "string \<Rightarrow> string set" where
  "generate_random_graph_name token = (\<lambda>n. str_nat n @ ''.'' @ token) ` get_random_number"

subsection \<open>\<^verbatim>\<open>build_gradient_graph\<close>\<close>



text \<open>
  The loop over \<^verbatim>\<open>model.graph.initializer\<close>. Its state is the graph's input list
  (appended to in place), the local list \<^verbatim>\<open>initializers\<close> and the set
  \<^verbatim>\<open>all_args_requiring_gradient\<close>. \<^verbatim>\<open>initializer.name[0]\<close> raises IndexError on an
  empty name; the inputs appended so far stay in the graph.
\<close>

fun initializer_loop ::
  "string list \<Rightarrow> tensor_proto list \<Rightarrow>
   value_info_proto list \<times> tensor_proto list \<times> string set \<Rightarrow>
   (value_info_proto list \<times> tensor_proto list \<times> string set) \<times> (py_error + unit)" where
  "initializer_loop user_args_not_requiring_grad [] st = (st, Inr ())"
| "initializer_loop user_args_not_requiring_grad (ini # rest) (graph_inputs, initializers, all_args) =
     (case t_name ini of
        [] \<Rightarrow> ((graph_inputs, initializers, all_args), Inl IndexError)
      | c # _ \<Rightarrow>
          if \<not> isdigit c then
            initializer_loop user_args_not_requiring_grad rest
              (graph_inputs @ [make_tensor_value_info (t_name ini) (data_type ini) (dims ini)],
               initializers,
               if t_name ini \<notin> set user_args_not_requiring_grad
               then insert (t_name ini) all_args else all_args)
          else
            initializer_loop user_args_not_requiring_grad rest
              (graph_inputs, initializers @ [ini], all_args))"




subsection \<open>\<^verbatim>\<open>build_gradient_accumulation_graph\<close>\<close>

text \<open>
  The loop over \<^verbatim>\<open>enumerate(grad_model.graph.output)\<close>. Its state is the graph's node
  list and input list (both appended to in place) and the local list
  \<^verbatim>\<open>graph_outputs\<close>; the graph's output list is not touched while the loop runs.
\<close>

fun accumulation_loop ::
  "string set \<Rightarrow> nat \<Rightarrow> value_info_proto list \<Rightarrow>
   node_proto list \<times> value_info_proto list \<times> value_info_proto list \<Rightarrow>
   node_proto list \<times> value_info_proto list \<times> value_info_proto list" where
  "accumulation_loop gradient_output_names idx [] st = st"
| "accumulation_loop gradient_output_names idx (graph_output # rest)
     (graph_nodes, graph_inputs, graph_outputs) =
     (if vi_name graph_output \<notin> gradient_output_names then
        accumulation_loop gradient_output_names (Suc idx) rest
          (graph_nodes, graph_inputs, graph_outputs @ [graph_output])
      else
        (let grad_name = vi_name graph_output;
             grad_accumulation_buffer_name = grad_name @ ''.'' @ ''accumulation'' @ ''.'' @ ''buffer'';
             grad_accumulation_output_name = grad_name @ ''.'' @ ''accumulation'' @ ''.'' @ ''out'';
             acc_node = make_node ''InPlaceAccumulator''
               [grad_accumulation_buffer_name, grad_name, ''lazy_reset_grad'']
               [grad_accumulation_output_name]
               (''GradientAccumulator'' @ str_nat idx)
               ''com.microsoft''
         in accumulation_loop gradient_output_names (Suc idx) rest
              (graph_nodes @ [acc_node],
               graph_inputs @ [graph_output\<lparr>vi_name := grad_accumulation_buffer_name\<rparr>],
               graph_outputs @ [graph_output\<lparr>vi_name := grad_accumulation_output_name\<rparr>])))"

definition build_gradient_accumulation_graph :: "model_proto \<Rightarrow> string set \<Rightarrow> model_proto" where
  "build_gradient_accumulation_graph grad_model all_args_requiring_gradient_names =
     (let gradient_output_names = (\<lambda>arg_name. arg_name @ ''_grad'') ` all_args_requiring_gradient_names;
          g = graph grad_model
      in case accumulation_loop gradient_output_names 0 (g_output g) (g_node g, g_input g, []) of
           (graph_nodes, graph_inputs, graph_outputs) \<Rightarrow>
             grad_model\<lparr>graph := g\<lparr>
               g_node := graph_nodes,
               g_input := graph_inputs @ [make_tensor_value_info ''lazy_reset_grad'' TensorProto_BOOL [1]],
               g_output := graph_outputs\<rparr>\<rparr>)"

subsection \<open>\<^verbatim>\<open>get_model_parameters\<close>\<close>

fun parameters_loop ::
  "string list \<Rightarrow> tensor_proto list \<Rightarrow> tensor_proto list \<times> tensor_proto list \<Rightarrow>
   py_error + (tensor_proto list \<times> tensor_proto list)" where
  "parameters_loop args_not_requiring_gradient [] st = Inr st"
| "parameters_loop args_not_requiring_gradient (ini # rest) (trainable_params, non_trainable_params) =
     (case t_name ini of
        [] \<Rightarrow> Inl IndexError
      | c # _ \<Rightarrow>
          if \<not> isdigit c then
            if t_name ini \<in> set args_not_requiring_gradient then
              parameters_loop args_not_requiring_gradient rest
                (trainable_params, non_trainable_params @ [ini])
            else
              parameters_loop args_not_requiring_gradient rest
                (trainable_params @ [ini], non_trainable_params)
          else parameters_loop args_not_requiring_gradient rest
                 (trainable_params, non_trainable_params))"

definition get_model_parameters ::
  "model_proto \<Rightarrow> string list \<Rightarrow> py_error + (tensor_proto list \<times> tensor_proto list)" where
  "get_model_parameters m args_not_requiring_gradient =
     parameters_loop args_not_requiring_gradient (g_initializer (graph m)) ([], [])"

section \<open>\<^verbatim>\<open>model_runner.py\<close>\<close>

text \<open>
  The tokenizer is external: its end-of-sequence token and its \<^verbatim>\<open>decode\<close> are fields of
  a record. A token sequence is a list of integers (what \<^verbatim>\<open>tolist()\<close> gives),
  \<^verbatim>\<open>output_ids\<close> a two- or three-dimensional tensor of them, and \<^verbatim>\<open>output_probs\<close> a
  two-dimensional tensor whose elements are only ever compared with zero: any type with
  an order and a zero, no law assumed of either.
\<close>

record tokenizer =
  eos_token_id :: int
  decode :: "int list \<Rightarrow> string"

datatype ids_tensor = Ids_2d "int list list" | Ids_3d "int list list list"

text \<open>\<^verbatim>\<open>output_probs[i, j]\<close>: IndexError outside the tensor.\<close>

definition index2 :: "'p list list \<Rightarrow> nat \<Rightarrow> nat \<Rightarrow> py_error + 'p" where
  "index2 t i j = (if i < length t \<and> j < length (t ! i) then Inr (t ! i ! j) else Inl IndexError)"

text \<open>\<^verbatim>\<open>xs[start:]\<close> for any integer \<^verbatim>\<open>start\<close>: a negative one counts from the end.\<close>

definition slice_from :: "int \<Rightarrow> 'a list \<Rightarrow> 'a list" where
  "slice_from start xs =
     (if start < 0 then drop (nat (int (length xs) + start)) xs else drop (nat start) xs)"

text \<open>\<^verbatim>\<open>str.rstrip()\<close>.\<close>

definition rstrip :: "string \<Rightarrow> string" where
  "rstrip s = rev (dropWhile isspace (rev s))"

text \<open>The loop \<^verbatim>\<open>for k in range(len(output_ij))\<close>, which cuts the list at the first
  end-of-sequence token and leaves it whole when there is none.\<close>

function eos_loop :: "int \<Rightarrow> int list \<Rightarrow> nat \<Rightarrow> int list" where
  "eos_loop eos output_ij k =
     (if k < length output_ij then
        (if output_ij ! k = eos then take k output_ij else eos_loop eos output_ij (Suc k))
      else output_ij)"
  by pat_completeness auto
termination
  by (relation "measure (\<lambda>(eos, output_ij, k). length output_ij - k)") auto

declare eos_loop.simps [simp del]

text \<open>Lines 32 to 39: the text of one candidate.\<close>

definition output_text :: "tokenizer \<Rightarrow> int \<Rightarrow> int list \<Rightarrow> string" where
  "output_text tok last_complete_word_position output_ij =
     rstrip (decode tok
       (slice_from last_complete_word_position (eos_loop (eos_token_id tok) output_ij 0)))"

text \<open>
  The loop over the candidates of row \<open>i\<close>, from candidate \<open>j\<close> on. The probability is
  read for the test only when \<^verbatim>\<open>returns_i\<close> is not empty, and again when the text is
  appended.
\<close>

fun candidate_loop ::
  "tokenizer \<Rightarrow> int \<Rightarrow> ('p::{ord,zero}) list list \<Rightarrow> nat \<Rightarrow> nat \<Rightarrow> int list list \<Rightarrow>
   string list \<times> 'p list \<Rightarrow> py_error + (string list \<times> 'p list)" where
  "candidate_loop tok pos output_probs i j [] st = Inr st"
| "candidate_loop tok pos output_probs i j (output_ij # rest) (returns_i, probs_i) =
     (case (if returns_i \<noteq> [] then map_sum id (\<lambda>q. q < 0) (index2 output_probs i j)
            else Inr False) of
        Inl e \<Rightarrow> Inl e
      | Inr True \<Rightarrow> Inr (returns_i, probs_i)
      | Inr False \<Rightarrow>
          (if output_text tok pos output_ij \<notin> set returns_i then
             (case index2 output_probs i j of
                Inl e \<Rightarrow> Inl e
              | Inr q \<Rightarrow>
                  candidate_loop tok pos output_probs i (Suc j) rest
                    (returns_i @ [output_text tok pos output_ij], probs_i @ [q]))
           else candidate_loop tok pos output_probs i (Suc j) rest (returns_i, probs_i)))"

text \<open>The loop over the rows of \<^verbatim>\<open>output_ids\<close>, from row \<open>i\<close> on.\<close>

fun row_loop ::
  "tokenizer \<Rightarrow> int \<Rightarrow> ('p::{ord,zero}) list list \<Rightarrow> nat \<Rightarrow> int list list list \<Rightarrow>
   string list list \<times> 'p list list \<Rightarrow> py_error + (string list list \<times> 'p list list)" where
  "row_loop tok pos output_probs i [] st = Inr st"
| "row_loop tok pos output_probs i (output_i # rest) (returns, returns_probs) =
     (case candidate_loop tok pos output_probs i 0 output_i ([], []) of
        Inl e \<Rightarrow> Inl e
      | Inr (returns_i, probs_i) \<Rightarrow>
          row_loop tok pos output_probs (Suc i) rest
            (returns @ [returns_i], returns_probs @ [probs_i]))"

text \<open>\<^verbatim>\<open>output_ids[:, None]\<close> makes of every row of a two-dimensional tensor a row of one
  candidate.\<close>

definition candidates :: "ids_tensor \<Rightarrow> int list list list" where
  "candidates output_ids =
     (case output_ids of Ids_2d rows \<Rightarrow> map (\<lambda>row. [row]) rows | Ids_3d rows \<Rightarrow> rows)"

definition process_results ::
  "ids_tensor \<Rightarrow> ('p::{ord,zero}) list list \<Rightarrow> tokenizer \<Rightarrow> int \<Rightarrow>
   py_error + (string list list \<times> 'p list list)" where
  "process_results output_ids output_probs tok last_complete_word_position =
     row_loop tok last_complete_word_position output_probs 0 (candidates output_ids) ([], [])"

section \<open>Notions of the specification\<close>

text \<open>A name begins with a digit: it has a first character and \<^verbatim>\<open>isdigit\<close> holds of it.\<close>

definition begins_with_digit :: "string \<Rightarrow> bool" where
  "begins_with_digit s = (case s of [] \<Rightarrow> False | c # _ \<Rightarrow> isdigit c)"


section \<open>Concrete inputs\<close>

text \<open>A gradient model with a loss output and two outputs that are both named
  \<^verbatim>\<open>w_grad\<close>.\<close>

definition example_outputs :: "value_info_proto list" where
  "example_outputs =
     [\<lparr>vi_name = ''loss'', vi_type = Tensor_type 1 [], vi_doc_string = ''''\<rparr>,
      \<lparr>vi_name = ''w_grad'', vi_type = Tensor_type 1 [Dim_value 2, Dim_value 3], vi_doc_string = ''''\<rparr>,
      \<lparr>vi_name = ''w_grad'', vi_type = Tensor_type 1 [Dim_value 4], vi_doc_string = ''second''\<rparr>]"

definition example_grad_model :: model_proto where
  "example_grad_model =
     \<lparr>graph = \<lparr>g_node = [], g_initializer = [],
               g_input = [\<lparr>vi_name = ''w'', vi_type = Tensor_type 1 [Dim_value 2, Dim_value 3],
                           vi_doc_string = ''''\<rparr>],
               g_output = example_outputs\<rparr>,
      opset_import = [('''', 14)]\<rparr>"

text \<open>A forward model with two parameters and one constant of the exporter, an accessor
  holding it, and a gradient builder that returns the model it is given.\<close>

definition example_initializers :: "tensor_proto list" where
  "example_initializers =
     [\<lparr>t_name = ''w'', data_type = 1, dims = [2, 3], raw_data = []\<rparr>,
      \<lparr>t_name = ''7.weight'', data_type = 7, dims = [], raw_data = [5]\<rparr>,
      \<lparr>t_name = ''b'', data_type = 1, dims = [3], raw_data = []\<rparr>]"

definition example_forward_model :: model_proto where
  "example_forward_model =
     \<lparr>graph = \<lparr>g_node = [], g_initializer = example_initializers,
               g_input = [\<lparr>vi_name = ''x'', vi_type = Tensor_type 1 [Dim_value 2],
                           vi_doc_string = ''''\<rparr>],
               g_output = [\<lparr>vi_name = ''loss'', vi_type = Tensor_type 1 [],
                            vi_doc_string = ''''\<rparr>]\<rparr>,
      opset_import = [('''', 14)]\<rparr>"






text \<open>
  A tokenizer whose end-of-sequence token is 0 and whose decoder writes one word and a
  space for every token; one row of four candidates, of which the first has a negative
  probability, the third decodes to the text of the first and the fourth has a negative
  probability again.
\<close>

definition example_decode :: "int list \<Rightarrow> string" where
  "example_decode toks =
     concat (map (\<lambda>t. (if t = 1 then ''hello'' else if t = 2 then ''world'' else ''x'') @ '' '') toks)"

definition example_tokenizer :: tokenizer where
  "example_tokenizer = \<lparr>eos_token_id = 0, decode = example_decode\<rparr>"

definition example_ids :: ids_tensor where
  "example_ids = Ids_3d [[[5, 1, 0, 2], [5, 2, 0, 0], [5, 1, 0, 1], [5, 1, 2, 0]]]"

definition example_probs :: "int list list" where
  "example_probs = [[- 3, 2, 1, - 1]]"

section \<open>Properties of \<^verbatim>\<open>_graph_utils.py\<close>\<close>


lemma accumulation_loop_eq:
  "accumulation_loop G idx outs (ns, ins, os) =
     (ns @ map (\<lambda>(i, out). make_node ''InPlaceAccumulator''
                  [vi_name out @ ''.accumulation.buffer'', vi_name out, ''lazy_reset_grad'']
                  [vi_name out @ ''.accumulation.out'']
                  (''GradientAccumulator'' @ str_nat i) ''com.microsoft'')
            (filter (\<lambda>(i, out). vi_name out \<in> G) (enumerate idx outs)),
      ins @ map (\<lambda>out. out\<lparr>vi_name := vi_name out @ ''.accumulation.buffer''\<rparr>)
             (filter (\<lambda>out. vi_name out \<in> G) outs),
      os @ map (\<lambda>out. if vi_name out \<in> G
                        then out\<lparr>vi_name := vi_name out @ ''.accumulation.out''\<rparr> else out) outs)"
  by (induction outs arbitrary: idx ns ins os) (simp_all add: Let_def)

lemma output_loop_None: "output_loop outs n = None \<longleftrightarrow> n \<notin> vi_name ` set outs"
  by (induction outs) auto

lemma output_loop_Some:
  "n \<in> vi_name ` set outs \<Longrightarrow>
   \<exists>k<length outs. vi_name (outs ! k) = n \<and> (\<forall>j<k. vi_name (outs ! j) \<noteq> n) \<and>
      output_loop outs n = Some (outs ! k)"
proof (induction outs)
  case Nil
  then show ?case by simp
next
  case (Cons a outs)
  show ?case
  proof (cases "vi_name a = n")
    case True
    then show ?thesis by (intro exI[of _ 0]) simp
  next
    case False
    with Cons obtain k where k: "k < length outs" "vi_name (outs ! k) = n"
      "\<forall>j<k. vi_name (outs ! j) \<noteq> n" "output_loop outs n = Some (outs ! k)"
      by auto
    show ?thesis
    proof (intro exI[of _ "Suc k"] conjI allI impI)
      fix j assume "j < Suc k"
      then show "vi_name ((a # outs) ! j) \<noteq> n"
        using False k(3) by (cases j) auto
    qed (use k False in auto)
  qed
qed


text \<open>
  Claim C8. \<^verbatim>\<open>get_output_from_output_name\<close> leaves the model as it was. When no graph
  output has the given name it raises LookupError; when one has, it raises nothing and
  returns the output at the least index \<open>k\<close> whose name is the given one.
\<close>

theorem get_output_from_output_name_first_or_lookup_error:
  "fst (get_output_from_output_name m n) = m \<and>
   (n \<notin> vi_name ` set (g_output (graph m)) \<longrightarrow>
      (\<exists>msg. snd (get_output_from_output_name m n) = Inl (LookupError msg))) \<and>
   (n \<in> vi_name ` set (g_output (graph m)) \<longrightarrow>
      (\<exists>k<length (g_output (graph m)).
          vi_name (g_output (graph m) ! k) = n \<and>
          (\<forall>j<k. vi_name (g_output (graph m) ! j) \<noteq> n) \<and>
          snd (get_output_from_output_name m n) = Inr (g_output (graph m) ! k)))"
proof (intro conjI impI)
  show "fst (get_output_from_output_name m n) = m"
    by (simp add: get_output_from_output_name_def split: option.split)
next
  assume "n \<notin> vi_name ` set (g_output (graph m))"
  then have "output_loop (g_output (graph m)) n = None"
    by (simp add: output_loop_None)
  then show "\<exists>msg. snd (get_output_from_output_name m n) = Inl (LookupError msg)"
    by (simp add: get_output_from_output_name_def)
next
  assume "n \<in> vi_name ` set (g_output (graph m))"
  from output_loop_Some [OF this] obtain k where
    k: "k < length (g_output (graph m))" "vi_name (g_output (graph m) ! k) = n"
       "\<forall>j<k. vi_name (g_output (graph m) ! j) \<noteq> n"
       "output_loop (g_output (graph m)) n = Some (g_output (graph m) ! k)"
    by blast
  from k(4) have "snd (get_output_from_output_name m n) = Inr (g_output (graph m) ! k)"
    by (simp add: get_output_from_output_name_def)
  with k(1-3) show "\<exists>k<length (g_output (graph m)).
          vi_name (g_output (graph m) ! k) = n \<and>
          (\<forall>j<k. vi_name (g_output (graph m) ! j) \<noteq> n) \<and>
          snd (get_output_from_output_name m n) = Inr (g_output (graph m) ! k)"
    by blast
qed

theorem get_output_from_output_name_witness:
  "snd (get_output_from_output_name example_grad_model ''w_grad'') =
     Inr \<lparr>vi_name = ''w_grad'', vi_type = Tensor_type 1 [Dim_value 2, Dim_value 3], vi_doc_string = ''''\<rparr> \<and>
   (\<exists>msg. snd (get_output_from_output_name example_grad_model ''b_grad'') = Inl (LookupError msg)) \<and>
   fst (get_output_from_output_name example_grad_model ''b_grad'') = example_grad_model"
  using get_output_from_output_name_first_or_lookup_error [of example_grad_model "''w_grad''"]
    get_output_from_output_name_first_or_lookup_error [of example_grad_model "''b_grad''"]
  by (auto simp: example_grad_model_def example_outputs_def less_Suc_eq nth_Cons')


text \<open>
  Claim C1. The node list after \<^verbatim>\<open>build_gradient_accumulation_graph\<close> is the node list
  before, followed by one node for every graph output (taken with its index, in order)
  whose name is \<^verbatim>\<open>arg_grad\<close> for an \<^verbatim>\<open>arg\<close> of the given set, and by nothing else. The
  node has operator \<^verbatim>\<open>InPlaceAccumulator\<close>, domain \<^verbatim>\<open>com.microsoft\<close>, the three inputs
  buffer, gradient and \<^verbatim>\<open>lazy_reset_grad\<close> in that order and the single output
  \<^verbatim>\<open>.accumulation.out\<close>.
\<close>

theorem build_gradient_accumulation_graph_nodes:
  "g_node (graph (build_gradient_accumulation_graph m args)) =
     g_node (graph m) @
     map (\<lambda>(idx, out).
            \<lparr>op_type = ''InPlaceAccumulator'',
             n_input = [vi_name out @ ''.accumulation.buffer'', vi_name out, ''lazy_reset_grad''],
             n_output = [vi_name out @ ''.accumulation.out''],
             n_name = ''GradientAccumulator'' @ str_nat idx,
             domain = ''com.microsoft''\<rparr>)
       (filter (\<lambda>(idx, out). vi_name out \<in> (\<lambda>a. a @ ''_grad'') ` args)
          (enumerate 0 (g_output (graph m))))"
  by (simp add: build_gradient_accumulation_graph_def accumulation_loop_eq make_node_def Let_def)

theorem build_gradient_accumulation_graph_nodes_witness:
  "g_node (graph (build_gradient_accumulation_graph example_grad_model {''w'', ''b''})) =
     [\<lparr>op_type = ''InPlaceAccumulator'',
       n_input = [''w_grad.accumulation.buffer'', ''w_grad'', ''lazy_reset_grad''],
       n_output = [''w_grad.accumulation.out''],
       n_name = ''GradientAccumulator1'',
       domain = ''com.microsoft''\<rparr>,
      \<lparr>op_type = ''InPlaceAccumulator'',
       n_input = [''w_grad.accumulation.buffer'', ''w_grad'', ''lazy_reset_grad''],
       n_output = [''w_grad.accumulation.out''],
       n_name = ''GradientAccumulator2'',
       domain = ''com.microsoft''\<rparr>]"
  using build_gradient_accumulation_graph_nodes [of example_grad_model "{''w'', ''b''}"]
  by (simp add: example_grad_model_def example_outputs_def enumerate_simps str_nat.simps digit_char_def)

text \<open>
  Claim C4. The input list after \<^verbatim>\<open>build_gradient_accumulation_graph\<close> is the input list
  before, then for every gradient output, in order, a copy of it renamed to
  \<^verbatim>\<open>.accumulation.buffer\<close> (same type and shape), then one input \<^verbatim>\<open>lazy_reset_grad\<close> of
  tensor type BOOL and shape \<open>[1]\<close>.
\<close>

theorem build_gradient_accumulation_graph_inputs:
  "g_input (graph (build_gradient_accumulation_graph m args)) =
     g_input (graph m) @
     map (\<lambda>out. out\<lparr>vi_name := vi_name out @ ''.accumulation.buffer''\<rparr>)
       (filter (\<lambda>out. vi_name out \<in> (\<lambda>a. a @ ''_grad'') ` args) (g_output (graph m))) @
     [\<lparr>vi_name = ''lazy_reset_grad'', vi_type = Tensor_type TensorProto_BOOL [Dim_value 1],
       vi_doc_string = ''''\<rparr>]"
  by (simp add: build_gradient_accumulation_graph_def accumulation_loop_eq
      make_tensor_value_info_def Let_def)

theorem build_gradient_accumulation_graph_inputs_witness:
  "g_input (graph (build_gradient_accumulation_graph example_grad_model {''w'', ''b''})) =
     [\<lparr>vi_name = ''w'', vi_type = Tensor_type 1 [Dim_value 2, Dim_value 3], vi_doc_string = ''''\<rparr>,
      \<lparr>vi_name = ''w_grad.accumulation.buffer'',
       vi_type = Tensor_type 1 [Dim_value 2, Dim_value 3], vi_doc_string = ''''\<rparr>,
      \<lparr>vi_name = ''w_grad.accumulation.buffer'',
       vi_type = Tensor_type 1 [Dim_value 4], vi_doc_string = ''second''\<rparr>,
      \<lparr>vi_name = ''lazy_reset_grad'', vi_type = Tensor_type 9 [Dim_value 1], vi_doc_string = ''''\<rparr>]"
  using build_gradient_accumulation_graph_inputs [of example_grad_model "{''w'', ''b''}"]
  by (simp add: example_grad_model_def example_outputs_def TensorProto_BOOL_def)

text \<open>
  Claim C5. The output list after \<^verbatim>\<open>build_gradient_accumulation_graph\<close> is the output list
  before with every gradient output renamed to \<^verbatim>\<open>.accumulation.out\<close> in its place (same
  type and shape) and every other output as it was. The nodes and the inputs the graph
  had are the first nodes and the first inputs of the new graph, unchanged; the
  initializers and the opset imports are as they were.
\<close>

theorem build_gradient_accumulation_graph_outputs_frame:
  "g_output (graph (build_gradient_accumulation_graph m args)) =
     map (\<lambda>out. if vi_name out \<in> (\<lambda>a. a @ ''_grad'') ` args
                 then out\<lparr>vi_name := vi_name out @ ''.accumulation.out''\<rparr> else out)
       (g_output (graph m)) \<and>
   take (length (g_node (graph m))) (g_node (graph (build_gradient_accumulation_graph m args))) =
     g_node (graph m) \<and>
   take (length (g_input (graph m))) (g_input (graph (build_gradient_accumulation_graph m args))) =
     g_input (graph m) \<and>
   g_initializer (graph (build_gradient_accumulation_graph m args)) = g_initializer (graph m) \<and>
   opset_import (build_gradient_accumulation_graph m args) = opset_import m"
  by (simp add: build_gradient_accumulation_graph_def accumulation_loop_eq Let_def)

theorem build_gradient_accumulation_graph_outputs_witness:
  "g_output (graph (build_gradient_accumulation_graph example_grad_model {''w'', ''b''})) =
     [\<lparr>vi_name = ''loss'', vi_type = Tensor_type 1 [], vi_doc_string = ''''\<rparr>,
      \<lparr>vi_name = ''w_grad.accumulation.out'',
       vi_type = Tensor_type 1 [Dim_value 2, Dim_value 3], vi_doc_string = ''''\<rparr>,
      \<lparr>vi_name = ''w_grad.accumulation.out'',
       vi_type = Tensor_type 1 [Dim_value 4], vi_doc_string = ''second''\<rparr>]"
  using build_gradient_accumulation_graph_outputs_frame [of example_grad_model "{''w'', ''b''}"]
  by (simp add: example_grad_model_def example_outputs_def)

subsection \<open>\<^verbatim>\<open>build_gradient_graph\<close>\<close>


lemma begins_with_digit_hd: "s \<noteq> [] \<Longrightarrow> begins_with_digit s = isdigit (hd s)"
  by (cases s) (simp_all add: begins_with_digit_def)


lemma initializer_loop_error:
  "snd (initializer_loop nr inits st) = Inl e \<Longrightarrow> e = IndexError \<and> (\<exists>t\<in>set inits. t_name t = [])"
proof (induction inits arbitrary: st)
  case Nil
  then show ?case by simp
next
  case (Cons t inits)
  obtain gi kept args where st: "st = (gi, kept, args)"
    by (cases st)
  show ?case
  proof (cases "t_name t")
    case Nil
    with Cons.prems st show ?thesis by simp
  next
    case (Cons c cs)
    with Cons.prems Cons.IH st show ?thesis
      by (auto split: if_splits)
  qed
qed













subsection \<open>\<^verbatim>\<open>generate_random_graph_name\<close> and \<^verbatim>\<open>get_model_parameters\<close>\<close>


lemma isdigit_digit_char: "d < 10 \<Longrightarrow> isdigit (digit_char d)"
proof -
  assume "d < 10"
  then have "d \<in> {0, 1, 2, 3, 4, 5, 6, 7, 8, 9}"
    by auto
  then show ?thesis
    by (auto simp: isdigit_def digit_char_def)
qed

lemma str_nat_begins_with_digit: "begins_with_digit (str_nat n @ rest)"
proof (induction n arbitrary: rest rule: str_nat.induct)
  case (1 n)
  show ?case
  proof (cases "n < 10")
    case True
    then show ?thesis
      by (simp add: str_nat.simps [of n] begins_with_digit_def isdigit_digit_char)
  next
    case False
    with "1" [of "digit_char (n mod 10) # rest"] show ?thesis
      by (simp add: str_nat.simps [of n])
  qed
qed

lemma parameters_loop_eq:
  "parameters_loop a inits (tr, ntr) =
     (if \<exists>t\<in>set inits. t_name t = [] then Inl IndexError
      else Inr (tr @ filter (\<lambda>t. \<not> begins_with_digit (t_name t) \<and> t_name t \<notin> set a) inits,
                ntr @ filter (\<lambda>t. \<not> begins_with_digit (t_name t) \<and> t_name t \<in> set a) inits))"
proof (induction inits arbitrary: tr ntr)
  case Nil
  show ?case by simp
next
  case (Cons t inits)
  show ?case
  proof (cases "t_name t")
    case Nil
    then show ?thesis by simp
  next
    case (Cons c cs)
    then show ?thesis
      by (simp add: Cons.IH begins_with_digit_def)
  qed
qed


text \<open>
  Claim C10. \<^verbatim>\<open>generate_random_graph_name\<close> yields a name, and every name it can yield
  is \<^verbatim>\<open>n.token\<close> for a natural number \<open>n\<close> of at most 1000, rendered in decimal, so it
  begins with a digit. Whenever \<^verbatim>\<open>get_model_parameters\<close> returns, its first list holds
  the initializers whose name does not begin with a digit and is not in
  \<^verbatim>\<open>args_not_requiring_gradient\<close>, its second list those whose name does not begin with
  a digit and is in it, both in the order of the model; together they hold exactly the
  initializers whose name does not begin with a digit, so an initializer with a
  generated name is in neither. It returns when every initializer has a non-empty name.
\<close>

theorem generate_random_graph_name_never_parameter:
  "generate_random_graph_name token \<noteq> {} \<and>
   (\<forall>s\<in>generate_random_graph_name token.
      (\<exists>n\<le>1000. s = str_nat n @ ''.'' @ token) \<and> begins_with_digit s) \<and>
   (\<forall>tr ntr. get_model_parameters m a = Inr (tr, ntr) \<longrightarrow>
      tr = filter (\<lambda>t. \<not> begins_with_digit (t_name t) \<and> t_name t \<notin> set a)
             (g_initializer (graph m)) \<and>
      ntr = filter (\<lambda>t. \<not> begins_with_digit (t_name t) \<and> t_name t \<in> set a)
              (g_initializer (graph m)) \<and>
      set tr \<union> set ntr = {t \<in> set (g_initializer (graph m)). \<not> begins_with_digit (t_name t)} \<and>
      (\<forall>t. t_name t \<in> generate_random_graph_name token \<longrightarrow> t \<notin> set tr \<and> t \<notin> set ntr)) \<and>
   ((\<forall>t\<in>set (g_initializer (graph m)). t_name t \<noteq> []) \<longrightarrow>
      (\<exists>tr ntr. get_model_parameters m a = Inr (tr, ntr)))"
proof (intro conjI ballI allI impI)
  show "generate_random_graph_name token \<noteq> {}"
    by (simp add: generate_random_graph_name_def get_random_number_def)
next
  fix s
  assume "s \<in> generate_random_graph_name token"
  then obtain n where n: "n \<le> 1000" "s = str_nat n @ ''.'' @ token"
    by (auto simp: generate_random_graph_name_def get_random_number_def)
  then show "\<exists>n\<le>1000. s = str_nat n @ ''.'' @ token"
    by blast
  from n(2) show "begins_with_digit s"
    by (simp add: str_nat_begins_with_digit)
next
  fix tr ntr
  assume r: "get_model_parameters m a = Inr (tr, ntr)"
  then show tr: "tr = filter (\<lambda>t. \<not> begins_with_digit (t_name t) \<and> t_name t \<notin> set a)
             (g_initializer (graph m))"
    and ntr: "ntr = filter (\<lambda>t. \<not> begins_with_digit (t_name t) \<and> t_name t \<in> set a)
              (g_initializer (graph m))"
    by (simp_all add: get_model_parameters_def parameters_loop_eq split: if_splits)
  show "set tr \<union> set ntr = {t \<in> set (g_initializer (graph m)). \<not> begins_with_digit (t_name t)}"
    unfolding tr ntr by auto
  fix t :: tensor_proto
  assume "t_name t \<in> generate_random_graph_name token"
  then have "begins_with_digit (t_name t)"
    by (auto simp: generate_random_graph_name_def str_nat_begins_with_digit)
  then show "t \<notin> set tr" and "t \<notin> set ntr"
    unfolding tr ntr by simp_all
next
  assume "\<forall>t\<in>set (g_initializer (graph m)). t_name t \<noteq> []"
  then show "\<exists>tr ntr. get_model_parameters m a = Inr (tr, ntr)"
    by (simp add: get_model_parameters_def parameters_loop_eq)
qed

theorem generate_random_graph_name_witness:
  "''7.weight'' \<in> generate_random_graph_name ''weight'' \<and>
   begins_with_digit ''7.weight'' \<and>
   get_model_parameters example_forward_model [''b''] =
     Inr ([\<lparr>t_name = ''w'', data_type = 1, dims = [2, 3], raw_data = []\<rparr>],
          [\<lparr>t_name = ''b'', data_type = 1, dims = [3], raw_data = []\<rparr>])"
proof -
  note spec = generate_random_graph_name_never_parameter
    [of "''weight''" example_forward_model "[''b'']"]
  have "(7::nat) \<in> get_random_number"
    by (simp add: get_random_number_def)
  then have "str_nat 7 @ ''.'' @ ''weight'' \<in> generate_random_graph_name ''weight''"
    unfolding generate_random_graph_name_def by (rule imageI)
  then have mem: "''7.weight'' \<in> generate_random_graph_name ''weight''"
    by (simp add: str_nat.simps digit_char_def)
  with spec have digit: "begins_with_digit ''7.weight''"
    by blast
  have "\<forall>t\<in>set (g_initializer (graph example_forward_model)). t_name t \<noteq> []"
    by (simp add: example_forward_model_def example_initializers_def)
  with spec obtain tr ntr where r: "get_model_parameters example_forward_model [''b''] = Inr (tr, ntr)"
    by blast
  with spec have "tr = filter (\<lambda>t. \<not> begins_with_digit (t_name t) \<and> t_name t \<notin> set [''b''])
             (g_initializer (graph example_forward_model))"
    and "ntr = filter (\<lambda>t. \<not> begins_with_digit (t_name t) \<and> t_name t \<in> set [''b''])
              (g_initializer (graph example_forward_model))"
    by blast+
  then have "tr = [\<lparr>t_name = ''w'', data_type = 1, dims = [2, 3], raw_data = []\<rparr>]"
    and "ntr = [\<lparr>t_name = ''b'', data_type = 1, dims = [3], raw_data = []\<rparr>]"
    by (simp_all add: example_forward_model_def example_initializers_def begins_with_digit_def
        isdigit_def)
  with r mem digit show ?thesis by simp
qed

section \<open>Properties of \<^verbatim>\<open>model_runner.py\<close>\<close>


lemma eos_loop_scan:
  "k \<le> length xs \<Longrightarrow> (\<forall>j<k. xs ! j \<noteq> eos) \<Longrightarrow>
   eos_loop eos xs k = takeWhile (\<lambda>t. t \<noteq> eos) xs"
proof (induction eos xs k rule: eos_loop.induct)
  case (1 eos xs k)
  show ?case
  proof (cases "k < length xs")
    case False
    with "1.prems" have k: "k = length xs" by simp
    with "1.prems" have "\<forall>x\<in>set xs. x \<noteq> eos"
      by (auto simp: in_set_conv_nth)
    then have tw: "takeWhile (\<lambda>t. t \<noteq> eos) xs = xs"
      by (simp add: takeWhile_eq_all_conv)
    from False have "eos_loop eos xs k = xs"
      by (simp add: eos_loop.simps [of eos xs k])
    then show ?thesis
      by (simp only: tw)
  next
    case True
    show ?thesis
    proof (cases "xs ! k = eos")
      case eq: True
      have "takeWhile (\<lambda>t. t \<noteq> eos) xs = take k xs"
        using "1.prems" eq by (intro takeWhile_eq_take_P_nth) auto
      with True eq show ?thesis
        by (simp add: eos_loop.simps [of eos xs k])
    next
      case neq: False
      have "\<forall>j<Suc k. xs ! j \<noteq> eos"
        using "1.prems" neq by (auto simp: less_Suc_eq)
      with "1.IH" [OF True neq] True have "eos_loop eos xs (Suc k) = takeWhile (\<lambda>t. t \<noteq> eos) xs"
        by simp
      with True neq show ?thesis
        by (simp add: eos_loop.simps [of eos xs k])
    qed
  qed
qed

lemma output_text_eq:
  "0 \<le> pos \<Longrightarrow>
   output_text tok pos toks =
     rstrip (decode tok (drop (nat pos) (takeWhile (\<lambda>t. t \<noteq> eos_token_id tok) toks)))"
  by (simp add: output_text_def slice_from_def eos_loop_scan)

lemma candidate_loop_stop:
  "rs \<noteq> [] \<Longrightarrow> index2 P i j = Inr q \<Longrightarrow> q < 0 \<Longrightarrow>
   candidate_loop tok pos P i j (c # cs) (rs, ps) = Inr (rs, ps)"
  by simp

lemma candidate_loop_error:
  "index2 P i j = Inl e \<Longrightarrow> candidate_loop tok pos P i j (c # cs) (rs, ps) = Inl e"
  by simp

lemma candidate_loop_new:
  "index2 P i j = Inr q \<Longrightarrow> rs = [] \<or> \<not> q < 0 \<Longrightarrow> output_text tok pos c \<notin> set rs \<Longrightarrow>
   candidate_loop tok pos P i j (c # cs) (rs, ps) =
     candidate_loop tok pos P i (Suc j) cs (rs @ [output_text tok pos c], ps @ [q])"
  by auto

lemma candidate_loop_seen:
  "index2 P i j = Inr q \<Longrightarrow> \<not> q < 0 \<Longrightarrow> output_text tok pos c \<in> set rs \<Longrightarrow>
   candidate_loop tok pos P i j (c # cs) (rs, ps) =
     candidate_loop tok pos P i (Suc j) cs (rs, ps)"
  by auto


declare candidate_loop.simps(2) [simp del]

lemma candidate_loop_Cons_Inr:
  assumes "candidate_loop tok pos P i j (c # cs) (rs, ps) = Inr res"
  obtains
    (stop) q where "index2 P i j = Inr q" "rs \<noteq> []" "q < 0" "res = (rs, ps)"
  | (new) q where "index2 P i j = Inr q" "rs = [] \<or> \<not> q < 0"
      "output_text tok pos c \<notin> set rs"
      "candidate_loop tok pos P i (Suc j) cs (rs @ [output_text tok pos c], ps @ [q]) = Inr res"
  | (seen) q where "index2 P i j = Inr q" "\<not> q < 0" "rs \<noteq> []"
      "output_text tok pos c \<in> set rs"
      "candidate_loop tok pos P i (Suc j) cs (rs, ps) = Inr res"
proof (cases "index2 P i j")
  case (Inl e)
  with assms show ?thesis
    by (simp add: candidate_loop_error)
next
  case (Inr q)
  show ?thesis
  proof (cases "rs \<noteq> [] \<and> q < 0")
    case True
    with assms Inr have "res = (rs, ps)"
      by (simp add: candidate_loop_stop)
    with True Inr show ?thesis
      by (intro stop [of q]) simp_all
  next
    case False
    then have cont: "rs = [] \<or> \<not> q < 0" by blast
    show ?thesis
    proof (cases "output_text tok pos c \<in> set rs")
      case True
      then have ne: "rs \<noteq> []" by auto
      with cont have nq: "\<not> q < 0" by blast
      from assms have "candidate_loop tok pos P i (Suc j) cs (rs, ps) = Inr res"
        by (simp only: candidate_loop_seen [OF Inr nq True])
      with Inr nq ne True show ?thesis
        by (intro seen [of q])
    next
      case False
      from assms have
        "candidate_loop tok pos P i (Suc j) cs (rs @ [output_text tok pos c], ps @ [q]) = Inr res"
        by (simp only: candidate_loop_new [OF Inr cont False])
      with Inr cont False show ?thesis
        by (intro new [of q])
    qed
  qed
qed

lemma candidate_loop_invariant:
  "candidate_loop tok pos P i j cs (rs, ps) = Inr (rs', ps') \<Longrightarrow>
   length rs = length ps \<Longrightarrow> distinct rs \<Longrightarrow>
   length rs' = length ps' \<and> distinct rs'"
proof (induction cs arbitrary: j rs ps)
  case Nil
  then show ?case by simp
next
  case (Cons c cs)
  from Cons.prems(1) show ?case
  proof (cases rule: candidate_loop_Cons_Inr)
    case (stop q)
    with Cons.prems show ?thesis by simp
  next
    case (new q)
    from Cons.IH [OF new(4)] new(3) Cons.prems(2,3) show ?thesis by simp
  next
    case (seen q)
    from Cons.IH [OF seen(5)] Cons.prems(2,3) show ?thesis by simp
  qed
qed

lemma candidate_loop_total:
  "i < length P \<Longrightarrow> j + length cs \<le> length (P ! i) \<Longrightarrow>
   \<exists>res. candidate_loop tok pos P i j cs (rs, ps) = Inr res"
proof (induction cs arbitrary: j rs ps)
  case Nil
  show ?case by simp
next
  case (Cons c cs)
  from Cons.prems have ix: "index2 P i j = Inr (P ! i ! j)"
    by (simp add: index2_def)
  from Cons.prems have rest: "Suc j + length cs \<le> length (P ! i)"
    by simp
  show ?case
  proof (cases "rs \<noteq> [] \<and> P ! i ! j < 0")
    case True
    then show ?thesis
      by (simp add: candidate_loop_stop [OF _ ix])
  next
    case False
    then have cont: "rs = [] \<or> \<not> P ! i ! j < 0" by blast
    show ?thesis
    proof (cases "output_text tok pos c \<in> set rs")
      case True
      then have "rs \<noteq> []" by auto
      with cont have "\<not> P ! i ! j < 0" by blast
      from candidate_loop_seen [OF ix this True] Cons.IH [OF Cons.prems(1) rest]
      show ?thesis by simp
    next
      case False
      from candidate_loop_new [OF ix cont False] Cons.IH [OF Cons.prems(1) rest]
      show ?thesis by simp
    qed
  qed
qed


lemma candidate_loop_processed:
  "candidate_loop tok pos P i j cs (rs, ps) = Inr (rs', ps') \<Longrightarrow>
   \<exists>n\<le>length cs.
     (\<exists>xs. rs' = rs @ xs) \<and>
     set rs' = set rs \<union> output_text tok pos ` set (take n cs) \<and>
     (n < length cs \<longrightarrow> (\<exists>q. index2 P i (j + n) = Inr q \<and> q < 0) \<and> (rs \<noteq> [] \<or> 0 < n)) \<and>
     (\<forall>k<n. \<exists>q. index2 P i (j + k) = Inr q \<and> ((rs \<noteq> [] \<or> 0 < k) \<longrightarrow> \<not> q < 0))"
proof (induction cs arbitrary: j rs ps)
  case Nil
  then show ?case by simp
next
  case (Cons c cs)
  from Cons.prems show ?case
  proof (cases rule: candidate_loop_Cons_Inr)
    case (stop q)
    then show ?thesis
      by (intro exI [of _ 0]) simp
  next
    case (new q)
    from Cons.IH [OF new(4)] obtain n where n: "n \<le> length cs"
      "\<exists>xs. rs' = (rs @ [output_text tok pos c]) @ xs"
      "set rs' = set (rs @ [output_text tok pos c]) \<union> output_text tok pos ` set (take n cs)"
      "n < length cs \<longrightarrow> (\<exists>q. index2 P i (Suc j + n) = Inr q \<and> q < 0)"
      "\<forall>k<n. \<exists>q. index2 P i (Suc j + k) = Inr q \<and> \<not> q < 0"
      by auto
    show ?thesis
    proof (intro exI [of _ "Suc n"] conjI allI impI)
      show "Suc n \<le> length (c # cs)" using n(1) by simp
      show "\<exists>xs. rs' = rs @ xs" using n(2) by auto
      show "set rs' = set rs \<union> output_text tok pos ` set (take (Suc n) (c # cs))"
        using n(3) by auto
    next
      assume "Suc n < length (c # cs)"
      with n(4) show "\<exists>q. index2 P i (j + Suc n) = Inr q \<and> q < 0" by simp
      show "rs \<noteq> [] \<or> 0 < Suc n" by simp
    next
      fix k assume k: "k < Suc n"
      show "\<exists>q. index2 P i (j + k) = Inr q \<and> ((rs \<noteq> [] \<or> 0 < k) \<longrightarrow> \<not> q < 0)"
      proof (cases k)
        case 0
        with new(1,2) show ?thesis by auto
      next
        case (Suc k')
        with k have "k' < n" by simp
        with n(5) obtain q' where "index2 P i (Suc j + k') = Inr q'" "\<not> q' < 0" by blast
        with Suc show ?thesis by simp
      qed
    qed
  next
    case (seen q)
    from Cons.IH [OF seen(5)] seen(3) obtain n where n: "n \<le> length cs"
      "\<exists>xs. rs' = rs @ xs"
      "set rs' = set rs \<union> output_text tok pos ` set (take n cs)"
      "n < length cs \<longrightarrow> (\<exists>q. index2 P i (Suc j + n) = Inr q \<and> q < 0)"
      "\<forall>k<n. \<exists>q. index2 P i (Suc j + k) = Inr q \<and> \<not> q < 0"
      by auto
    show ?thesis
    proof (intro exI [of _ "Suc n"] conjI allI impI)
      show "Suc n \<le> length (c # cs)" using n(1) by simp
      show "\<exists>xs. rs' = rs @ xs" using n(2) by auto
      show "set rs' = set rs \<union> output_text tok pos ` set (take (Suc n) (c # cs))"
        using n(3) seen(4) by auto
    next
      assume "Suc n < length (c # cs)"
      with n(4) show "\<exists>q. index2 P i (j + Suc n) = Inr q \<and> q < 0" by simp
      show "rs \<noteq> [] \<or> 0 < Suc n" by simp
    next
      fix k assume k: "k < Suc n"
      show "\<exists>q. index2 P i (j + k) = Inr q \<and> ((rs \<noteq> [] \<or> 0 < k) \<longrightarrow> \<not> q < 0)"
      proof (cases k)
        case 0
        with seen(1,2) show ?thesis by auto
      next
        case (Suc k')
        with k have "k' < n" by simp
        with n(5) obtain q' where "index2 P i (Suc j + k') = Inr q'" "\<not> q' < 0" by blast
        with Suc show ?thesis by simp
      qed
    qed
  qed
qed

lemma row_loop_rows:
  "row_loop tok pos P i rows (R0, P0) = Inr (R, Ps) \<Longrightarrow>
   \<exists>Rs Pss. R = R0 @ Rs \<and> Ps = P0 @ Pss \<and> length Rs = length rows \<and> length Pss = length rows \<and>
     (\<forall>k<length rows.
        candidate_loop tok pos P (i + k) 0 (rows ! k) ([], []) = Inr (Rs ! k, Pss ! k))"
proof (induction rows arbitrary: i R0 P0)
  case Nil
  then show ?case by simp
next
  case (Cons r rows)
  from Cons.prems obtain ri pi where
    row: "candidate_loop tok pos P i 0 r ([], []) = Inr (ri, pi)" and
    rest: "row_loop tok pos P (Suc i) rows (R0 @ [ri], P0 @ [pi]) = Inr (R, Ps)"
    by (auto split: sum.splits)
  from Cons.IH [OF rest] obtain Rs Pss where
    IH: "R = (R0 @ [ri]) @ Rs" "Ps = (P0 @ [pi]) @ Pss" "length Rs = length rows"
      "length Pss = length rows"
      "\<forall>k<length rows.
        candidate_loop tok pos P (Suc i + k) 0 (rows ! k) ([], []) = Inr (Rs ! k, Pss ! k)"
    by blast
  show ?case
  proof (intro exI [of _ "ri # Rs"] exI [of _ "pi # Pss"] conjI allI impI)
    fix k assume "k < length (r # rows)"
    then show "candidate_loop tok pos P (i + k) 0 ((r # rows) ! k) ([], []) =
        Inr ((ri # Rs) ! k, (pi # Pss) ! k)"
      using row IH(5) by (cases k) simp_all
  qed (use IH in simp_all)
qed

lemma row_loop_total:
  "(\<forall>k<length rows. \<exists>res. candidate_loop tok pos P (i + k) 0 (rows ! k) ([], []) = Inr res) \<Longrightarrow>
   \<exists>res. row_loop tok pos P i rows (R0, P0) = Inr res"
proof (induction rows arbitrary: i R0 P0)
  case Nil
  show ?case by simp
next
  case (Cons r rows)
  from Cons.prems [rule_format, of 0] obtain ri pi where
    row: "candidate_loop tok pos P i 0 r ([], []) = Inr (ri, pi)"
    by auto
  have "\<forall>k<length rows. \<exists>res.
      candidate_loop tok pos P (Suc i + k) 0 (rows ! k) ([], []) = Inr res"
  proof (intro allI impI)
    fix k assume "k < length rows"
    with Cons.prems [rule_format, of "Suc k"]
    show "\<exists>res. candidate_loop tok pos P (Suc i + k) 0 (rows ! k) ([], []) = Inr res"
      by simp
  qed
  from Cons.IH [OF this, of "R0 @ [ri]" "P0 @ [pi]"] row show ?case
    by simp
qed


lemma candidate_loop_prefix:
  "candidate_loop tok pos P i j cs (rs, ps) = Inr (rs', ps') \<Longrightarrow>
   (\<exists>xs. rs' = rs @ xs) \<and> (\<exists>ys. ps' = ps @ ys)"
proof (induction cs arbitrary: j rs ps)
  case Nil
  then show ?case by simp
next
  case (Cons c cs)
  from Cons.prems show ?case
  proof (cases rule: candidate_loop_Cons_Inr)
    case (stop q)
    then show ?thesis by simp
  next
    case (new q)
    from Cons.IH [OF new(4)] show ?thesis by auto
  next
    case (seen q)
    from Cons.IH [OF seen(5)] show ?thesis .
  qed
qed

lemma candidate_loop_first:
  assumes "candidate_loop tok pos P i j (c # cs) ([], []) = Inr (rs', ps')"
  shows "\<exists>q. index2 P i j = Inr q \<and> rs' \<noteq> [] \<and> ps' \<noteq> [] \<and>
           hd rs' = output_text tok pos c \<and> hd ps' = q"
  using assms
proof (cases rule: candidate_loop_Cons_Inr)
  case (new q)
  from candidate_loop_prefix [OF new(4)] new(1) show ?thesis by auto
qed simp_all

lemma process_results_rows:
  assumes "process_results ids P tok pos = Inr (R, Ps)"
  shows "length R = length (candidates ids) \<and> length Ps = length (candidates ids) \<and>
     (\<forall>i<length (candidates ids).
        candidate_loop tok pos P i 0 (candidates ids ! i) ([], []) = Inr (R ! i, Ps ! i))"
proof -
  from assms have "row_loop tok pos P 0 (candidates ids) ([], []) = Inr (R, Ps)"
    by (simp add: process_results_def)
  from row_loop_rows [OF this] show ?thesis by auto
qed



lemma example_texts:
  "output_text example_tokenizer 1 [5, 1, 0, 2] = ''hello''"
  "output_text example_tokenizer 1 [5, 2, 0, 0] = ''world''"
  "output_text example_tokenizer 1 [5, 1, 0, 1] = ''hello''"
  "output_text example_tokenizer 1 [5, 1, 2, 0] = ''hello world''"
  by (simp_all add: output_text_eq example_tokenizer_def example_decode_def rstrip_def isspace_def)

lemma example_run:
  "process_results example_ids example_probs example_tokenizer 1 =
     Inr ([[''hello'', ''world'']], [[- 3, 2]])"
  by (simp add: process_results_def candidates_def example_ids_def example_probs_def
      candidate_loop.simps(2) index2_def example_texts)





text \<open>
  Claim C7. When \<^verbatim>\<open>process_results\<close> returns, the suggestions of row \<open>i\<close> are the texts
  of its first \<open>n\<close> candidates, where, if \<open>n\<close> is not the whole row, candidate \<open>n\<close> is not
  the first one and has a negative probability, and no candidate strictly between the
  first and candidate \<open>n\<close> has a negative probability: the loop stops at the first
  candidate after the first whose probability is negative, and no later candidate
  contributes. The first candidate is always processed (by then nothing has been
  collected): its text is the first suggestion and its probability the first
  probability, whatever its sign.
\<close>

theorem process_results_stops_at_negative:
  assumes "process_results ids P tok pos = Inr (R, Ps)" and "i < length (candidates ids)"
  shows "\<exists>n\<le>length (candidates ids ! i).
     set (R ! i) = output_text tok pos ` set (take n (candidates ids ! i)) \<and>
     (n < length (candidates ids ! i) \<longrightarrow> 0 < n \<and> (\<exists>q. index2 P i n = Inr q \<and> q < 0)) \<and>
     (\<forall>k. 0 < k \<and> k < n \<longrightarrow> (\<exists>q. index2 P i k = Inr q \<and> \<not> q < 0)) \<and>
     (candidates ids ! i \<noteq> [] \<longrightarrow>
        0 < n \<and> (\<exists>q. index2 P i 0 = Inr q \<and> hd (Ps ! i) = q) \<and>
        hd (R ! i) = output_text tok pos (hd (candidates ids ! i)))"
proof -
  from process_results_rows [OF assms(1)] assms(2)
  have row: "candidate_loop tok pos P i 0 (candidates ids ! i) ([], []) = Inr (R ! i, Ps ! i)"
    by blast
  from candidate_loop_processed [OF row] obtain n where n: "n \<le> length (candidates ids ! i)"
    "set (R ! i) = set [] \<union> output_text tok pos ` set (take n (candidates ids ! i))"
    "n < length (candidates ids ! i) \<longrightarrow>
       (\<exists>q. index2 P i (0 + n) = Inr q \<and> q < 0) \<and> (([]::string list) \<noteq> [] \<or> 0 < n)"
    "\<forall>k<n. \<exists>q. index2 P i (0 + k) = Inr q \<and> ((([]::string list) \<noteq> [] \<or> 0 < k) \<longrightarrow> \<not> q < 0)"
    by blast
  show ?thesis
  proof (intro exI [of _ n] conjI allI impI)
    show "n \<le> length (candidates ids ! i)" by (rule n(1))
    show "set (R ! i) = output_text tok pos ` set (take n (candidates ids ! i))"
      using n(2) by simp
  next
    assume "n < length (candidates ids ! i)"
    with n(3) show "0 < n" and "\<exists>q. index2 P i n = Inr q \<and> q < 0" by simp_all
  next
    fix k assume "0 < k \<and> k < n"
    with n(4) show "\<exists>q. index2 P i k = Inr q \<and> \<not> q < 0" by auto
  next
    assume ne: "candidates ids ! i \<noteq> []"
    then obtain c cs where cs: "candidates ids ! i = c # cs"
      by (cases "candidates ids ! i") auto
    from candidate_loop_first [OF row [unfolded cs]] cs
    show "\<exists>q. index2 P i 0 = Inr q \<and> hd (Ps ! i) = q"
      and "hd (R ! i) = output_text tok pos (hd (candidates ids ! i))"
      by auto
    show "0 < n"
    proof (cases "n < length (candidates ids ! i)")
      case True
      with n(3) show ?thesis by simp
    next
      case False
      with n(1) ne show ?thesis by simp
    qed
  qed
qed

theorem process_results_stops_at_negative_witness:
  "process_results example_ids example_probs example_tokenizer 1 =
     Inr ([[''hello'', ''world'']], [[- 3, 2]]) \<and>
   (\<exists>n\<le>length (candidates example_ids ! 0).
     set ([[''hello'', ''world'']] ! 0) =
       output_text example_tokenizer 1 ` set (take n (candidates example_ids ! 0)) \<and>
     (n < length (candidates example_ids ! 0) \<longrightarrow>
        0 < n \<and> (\<exists>q. index2 example_probs 0 n = Inr q \<and> q < 0)) \<and>
     (\<forall>k. 0 < k \<and> k < n \<longrightarrow> (\<exists>q. index2 example_probs 0 k = Inr q \<and> \<not> q < 0)) \<and>
     (candidates example_ids ! 0 \<noteq> [] \<longrightarrow>
        0 < n \<and> (\<exists>q. index2 example_probs 0 0 = Inr q \<and> hd ([[- 3, 2]] ! 0) = q) \<and>
        hd ([[''hello'', ''world'']] ! 0) =
          output_text example_tokenizer 1 (hd (candidates example_ids ! 0))))"
proof -
  have lt: "0 < length (candidates example_ids)"
    by (simp add: candidates_def example_ids_def)
  show ?thesis
    by (intro conjI example_run process_results_stops_at_negative [OF example_run lt])
qed

text \<open>
  Claim C9. Whenever \<^verbatim>\<open>process_results\<close> returns, its two lists have the same length,
  the suggestions and the probabilities of every row have the same length, and the
  suggestions of a row are pairwise distinct. It returns when \<^verbatim>\<open>output_probs\<close> has a
  row for every row of \<^verbatim>\<open>output_ids\<close> and in it a probability for every candidate.
\<close>

theorem process_results_lists_aligned_distinct:
  "(\<forall>R Ps. process_results ids P tok pos = Inr (R, Ps) \<longrightarrow>
      length R = length Ps \<and>
      (\<forall>i<length R. length (R ! i) = length (Ps ! i) \<and> distinct (R ! i))) \<and>
   ((\<forall>i<length (candidates ids). i < length P \<and> length (candidates ids ! i) \<le> length (P ! i)) \<longrightarrow>
      (\<exists>R Ps. process_results ids P tok pos = Inr (R, Ps)))"
proof (intro conjI allI impI)
  fix R Ps
  assume r: "process_results ids P tok pos = Inr (R, Ps)"
  note rows = process_results_rows [OF r]
  from rows show "length R = length Ps" by simp
  fix i assume "i < length R"
  with rows have "candidate_loop tok pos P i 0 (candidates ids ! i) ([], []) = Inr (R ! i, Ps ! i)"
    by simp
  from candidate_loop_invariant [OF this]
  show "length (R ! i) = length (Ps ! i)" and "distinct (R ! i)" by simp_all
next
  assume shape: "\<forall>i<length (candidates ids).
      i < length P \<and> length (candidates ids ! i) \<le> length (P ! i)"
  have "\<forall>k<length (candidates ids). \<exists>res.
      candidate_loop tok pos P (0 + k) 0 (candidates ids ! k) ([], []) = Inr res"
  proof (intro allI impI)
    fix k assume "k < length (candidates ids)"
    with shape have "k < length P" "0 + length (candidates ids ! k) \<le> length (P ! k)"
      by simp_all
    from candidate_loop_total [OF this]
    show "\<exists>res. candidate_loop tok pos P (0 + k) 0 (candidates ids ! k) ([], []) = Inr res"
      by simp
  qed
  from row_loop_total [OF this, of "[]" "[]"]
  show "\<exists>R Ps. process_results ids P tok pos = Inr (R, Ps)"
    by (auto simp: process_results_def)
qed

theorem process_results_lists_aligned_distinct_witness:
  "length [[''hello'', ''world'']] = length [[- 3, 2 :: int]] \<and>
   length ([[''hello'', ''world'']] ! 0) = length ([[- 3, 2 :: int]] ! 0) \<and>
   distinct ([[''hello'', ''world'']] ! 0) \<and>
   (\<exists>R Ps. process_results example_ids example_probs example_tokenizer 1 = Inr (R, Ps))"
proof -
  note spec = process_results_lists_aligned_distinct
    [of example_ids example_probs example_tokenizer 1]
  from spec example_run
  have a: "length [[''hello'', ''world'']] = length [[- 3, 2 :: int]] \<and>
      (\<forall>i<length [[''hello'', ''world'']].
         length ([[''hello'', ''world'']] ! i) = length ([[- 3, 2 :: int]] ! i) \<and>
         distinct ([[''hello'', ''world'']] ! i))"
    by blast
  have "\<forall>i<length (candidates example_ids).
      i < length example_probs \<and> length (candidates example_ids ! i) \<le> length (example_probs ! i)"
    by (simp add: candidates_def example_ids_def example_probs_def)
  with spec have "\<exists>R Ps. process_results example_ids example_probs example_tokenizer 1 = Inr (R, Ps)"
    by blast
  with a show ?thesis by simp
qed

end
